theory Spec2Isabelle
  imports Complex_Main "HOL-Library.Sublist"
begin

section \<open>The waveform export snuffling (export\_waveforms.py)\<close>

text \<open>
  A shallow embedding of \<^verbatim>\<open>ExportWaveforms.call\<close>. Python floats are read as real
  numbers and strings as lists of characters. The traces of pyrocko are objects that
  the method changes in place, so a trace is kept in a store (a function from object
  references to trace values) and a batch of the chopper is a list of references.
\<close>

subsection \<open>Data\<close>

text \<open>The attributes of a pyrocko trace that \<^verbatim>\<open>call\<close> reads or writes.\<close>

record trace =
  network :: string
  station :: string
  location :: string
  channel :: string
  deltat :: real
  tmin :: real
  ydata :: "real list"

text \<open>The attributes of the viewer that \<^verbatim>\<open>call\<close> reads.\<close>

record viewer =
  lowpass :: "real option"
  highpass :: "real option"
  rotate_v :: real

text \<open>
  The parameters of the snuffling, as \<^verbatim>\<open>setup\<close> registers them: \<^verbatim>\<open>format\<close> is a
  string, \<^verbatim>\<open>tinc\<close> is a number or \<^verbatim>\<open>None\<close>, the two switches are booleans.
\<close>

record snuffling =
  format :: string
  tinc :: "real option"
  save_stations :: bool
  apply_filter :: bool

text \<open>The choices of the \<^verbatim>\<open>Format\<close> parameter, in the order of \<^verbatim>\<open>setup\<close>.\<close>

definition format_choices :: "string list" where
  "format_choices = [''mseed'', ''text'', ''sac'', ''yaff'']"

subsection \<open>The default output filename\<close>

definition template :: "snuffling \<Rightarrow> string" where
  "template self =
     (if tinc self \<noteq> None then ''trace_%n.%s.%l.%c_%(tmin_us)s''
      else ''trace_%n.%s.%l.%c'')"

definition default_output_filename :: "snuffling \<Rightarrow> string" where
  "default_output_filename self =
     (if format self = ''text'' then template self @ ''.dat''
      else template self @ ''.'' @ format self)"

subsection \<open>Truncation of the codes for miniseed\<close>

text \<open>
  The first block of the loop over the traces of a batch. \<^verbatim>\<open>s[:n]\<close> is \<^term>\<open>take n s\<close>;
  \<^verbatim>\<open>set_network\<close> and its siblings assign the attribute.
\<close>

definition truncate_codes :: "snuffling \<Rightarrow> trace \<Rightarrow> trace" where
  "truncate_codes self tr =
     (if format self = ''mseed'' then
        (let tr1 = (if length (network tr) > 2
                    then tr\<lparr>network := take 2 (network tr)\<rparr> else tr);
             tr2 = (if length (station tr1) > 5
                    then tr1\<lparr>station := take 5 (station tr1)\<rparr> else tr1);
             tr3 = (if length (location tr2) > 2
                    then tr2\<lparr>location := take 2 (location tr2)\<rparr> else tr2);
             tr4 = (if length (channel tr3) > 3
                    then tr3\<lparr>channel := take 3 (channel tr3)\<rparr> else tr3)
         in tr4)
      else tr)"

subsection \<open>Filtering\<close>

text \<open>
  The filters of pyrocko are outside this file. A call of one of them is a value of
  \<open>filter_call\<close> that records the method and its arguments as the source passes them:
  \<^verbatim>\<open>tr.bandpass(order, corner_hp, corner_lp)\<close>, \<^verbatim>\<open>tr.lowpass(order, corner, demean=...)\<close>
  and \<^verbatim>\<open>tr.highpass(order, corner, demean=...)\<close>. What a call does to a trace is a
  parameter \<open>filt\<close> of the model.
\<close>

datatype filter_call =
    Bandpass nat real real
  | Lowpass nat real bool
  | Highpass nat real bool

text \<open>
  Modelled from the spec: \<^verbatim>\<open>Snuffling.fail\<close>, a method of pyrocko's base class that is
  not part of the sources at hand. It surfaces a user-visible failure with the given
  reason and halts the call; here it is the exception \<open>SnufflingCallFailed\<close> with that
  reason. The other two exceptions are Python's own: \<^verbatim>\<open>ZeroDivisionError\<close> on
  \<^verbatim>\<open>0.5/tr.deltat\<close> when \<^verbatim>\<open>deltat\<close> is zero, and \<^verbatim>\<open>UnboundLocalError\<close> on reading a local
  variable that was never assigned.
\<close>

datatype error =
    ZeroDivisionError
  | UnboundLocalError string
  | SnufflingCallFailed string

text \<open>The second block of the loop over the traces of a batch.\<close>

definition apply_filters ::
  "(filter_call \<Rightarrow> trace \<Rightarrow> trace) \<Rightarrow> snuffling \<Rightarrow> viewer \<Rightarrow> trace \<Rightarrow> error + trace" where
  "apply_filters filt self v tr =
     (if apply_filter self then
        (case lowpass v of
           Some lp \<Rightarrow>
             (case highpass v of
                Some hp \<Rightarrow> Inr (filt (Bandpass 2 hp lp) tr)
              | None \<Rightarrow>
                  if deltat tr = 0 then Inl ZeroDivisionError
                  else if lp < 0.5 / deltat tr then Inr (filt (Lowpass 4 lp False) tr)
                  else Inr tr)
         | None \<Rightarrow>
             (case highpass v of
                Some hp \<Rightarrow>
                  if deltat tr = 0 then Inl ZeroDivisionError
                  else if hp < 0.5 / deltat tr then Inr (filt (Highpass 4 hp False) tr)
                  else Inr tr
              | None \<Rightarrow> Inr tr))
      else Inr tr)"

text \<open>The body of the loop over the traces of a batch, before the append.\<close>

definition condition_trace ::
  "(filter_call \<Rightarrow> trace \<Rightarrow> trace) \<Rightarrow> snuffling \<Rightarrow> viewer \<Rightarrow> trace \<Rightarrow> error + trace" where
  "condition_trace filt self v tr = apply_filters filt self v (truncate_codes self tr)"

subsection \<open>The loops over the batches and their traces\<close>

text \<open>
  A trace object is a reference into the store; the methods of a trace update the
  store at that reference.
\<close>

type_synonym tref = nat
type_synonym store = "tref \<Rightarrow> trace"

text \<open>
  \<^verbatim>\<open>for tr in trs\<close>: the state is the store and the list \<^verbatim>\<open>traces_save\<close>, to which
  every trace of the batch is appended after its conditioning.
\<close>

fun loop_traces ::
  "(filter_call \<Rightarrow> trace \<Rightarrow> trace) \<Rightarrow> snuffling \<Rightarrow> viewer \<Rightarrow> store \<Rightarrow> tref list \<Rightarrow>
   tref list \<Rightarrow> error + (store \<times> tref list)" where
  "loop_traces filt self v h traces_save [] = Inr (h, traces_save)"
| "loop_traces filt self v h traces_save (tr # trs) =
     (case condition_trace filt self v (h tr) of
        Inl e \<Rightarrow> Inl e
      | Inr tr' \<Rightarrow> loop_traces filt self v (h(tr := tr')) (traces_save @ [tr]) trs)"

text \<open>
  \<^verbatim>\<open>for trs in self.chopper_selected_traces(...)\<close>: the batches of the chopper are a
  finite list. The variable \<^verbatim>\<open>traces_save\<close> is unbound (\<open>None\<close>) until the first batch
  assigns it, and every batch assigns it a fresh empty list.
\<close>

fun loop_batches ::
  "(filter_call \<Rightarrow> trace \<Rightarrow> trace) \<Rightarrow> snuffling \<Rightarrow> viewer \<Rightarrow> store \<Rightarrow> tref list option \<Rightarrow>
   tref list list \<Rightarrow> error + (store \<times> tref list option)" where
  "loop_batches filt self v h traces_save [] = Inr (h, traces_save)"
| "loop_batches filt self v h traces_save (trs # rest) =
     (case loop_traces filt self v h [] trs of
        Inl e \<Rightarrow> Inl e
      | Inr (h', ts) \<Rightarrow> loop_batches filt self v h' (Some ts) rest)"

subsection \<open>Rotation of the horizontal components\<close>

text \<open>
  \<^verbatim>\<open>str.lower\<close> and \<^verbatim>\<open>str.endswith\<close>. A character is lowered by the table of the letters
  of ASCII; every other character stays. (Outside ASCII no character of Unicode has a
  lower case that ends in \<^verbatim>\<open>n\<close> or \<^verbatim>\<open>e\<close>, the two letters the source looks for.)
\<close>

definition lower_char :: "char \<Rightarrow> char" where
  "lower_char c =
     (case map_of (zip ''ABCDEFGHIJKLMNOPQRSTUVWXYZ'' ''abcdefghijklmnopqrstuvwxyz'') c of
        Some d \<Rightarrow> d
      | None \<Rightarrow> c)"

definition lower :: "string \<Rightarrow> string" where
  "lower s = map lower_char s"

definition endswith :: "string \<Rightarrow> string \<Rightarrow> bool" where
  "endswith s suf = suffix suf s"

text \<open>The condition of the \<^verbatim>\<open>if\<close> inside the two loops over \<^verbatim>\<open>traces_save\<close>.\<close>

definition pairable :: "trace \<Rightarrow> trace \<Rightarrow> bool" where
  "pairable a b =
     (network a = network b
      \<and> station a = station b
      \<and> location a = location b
      \<and> ((endswith (lower (channel a)) ''n'' \<and> endswith (lower (channel b)) ''e'')
           \<or> (endswith (channel a) ''1'' \<and> endswith (channel b) ''2''))
      \<and> \<bar>deltat a - deltat b\<bar> < deltat a * 0.001
      \<and> \<bar>tmin a - tmin b\<bar> < deltat a * 0.01
      \<and> length (ydata a) = length (ydata b))"

text \<open>
  The body of the \<^verbatim>\<open>if\<close>: both new arrays are computed, then \<^verbatim>\<open>a.set_ydata\<close> and
  \<^verbatim>\<open>b.set_ydata\<close> store them. The arithmetic of numpy on two arrays of one size is
  element by element.
\<close>

definition rotate_pair :: "real \<Rightarrow> real \<Rightarrow> tref \<Rightarrow> tref \<Rightarrow> store \<Rightarrow> store" where
  "rotate_pair cphi sphi a b h =
     (let aydata = map2 (\<lambda>x y. x * cphi + y * sphi) (ydata (h a)) (ydata (h b));
          bydata = map2 (\<lambda>x y. - x * sphi + y * cphi) (ydata (h a)) (ydata (h b));
          h1 = h(a := (h a)\<lparr>ydata := aydata\<rparr>);
          h2 = h1(b := (h1 b)\<lparr>ydata := bydata\<rparr>)
      in h2)"

text \<open>\<^verbatim>\<open>for b in traces_save\<close>, for a fixed \<^verbatim>\<open>a\<close>.\<close>

fun loop_b :: "real \<Rightarrow> real \<Rightarrow> tref \<Rightarrow> store \<Rightarrow> tref list \<Rightarrow> store" where
  "loop_b cphi sphi a h [] = h"
| "loop_b cphi sphi a h (b # bs) =
     loop_b cphi sphi a
       (if pairable (h a) (h b) then rotate_pair cphi sphi a b h else h) bs"

text \<open>\<^verbatim>\<open>for a in traces_save\<close>; the inner loop runs over the whole list each time.\<close>

fun loop_a :: "real \<Rightarrow> real \<Rightarrow> tref list \<Rightarrow> store \<Rightarrow> tref list \<Rightarrow> store" where
  "loop_a cphi sphi traces_save h [] = h"
| "loop_a cphi sphi traces_save h (a # as) =
     loop_a cphi sphi traces_save (loop_b cphi sphi a h traces_save) as"

text \<open>
  The rotation stage, after the loop over the batches. The test of the angle and of
  the switch comes first; only then is \<^verbatim>\<open>traces_save\<close> read.
\<close>

definition rotation :: "snuffling \<Rightarrow> viewer \<Rightarrow> store \<Rightarrow> tref list option \<Rightarrow> error + store" where
  "rotation self v h traces_save =
     (if rotate_v v \<noteq> 0 \<and> apply_filter self then
        (case traces_save of
           None \<Rightarrow> Inl (UnboundLocalError ''traces_save'')
         | Some ts \<Rightarrow>
             (let phi = rotate_v v / 180 * pi;
                  cphi = cos phi;
                  sphi = sin phi
              in Inr (loop_a cphi sphi ts h ts)))
      else Inr h)"

subsection \<open>The export\<close>

text \<open>
  What \<^verbatim>\<open>call\<close> does to the world outside, in order: the call of \<^verbatim>\<open>io.save\<close> with
  the traces, the filename template, the format and the overwrite flag; the two log
  lines; the dump of the stations to a file.
\<close>

datatype event =
    Save "trace list" string string bool
  | Info_saved_waveforms string
  | Dump_stations string
  | Info_saved_stations string

text \<open>
  The collaborators of \<^verbatim>\<open>call\<close>: the filters, \<^verbatim>\<open>io.save\<close> (\<open>Some msg\<close> when it raises
  \<^verbatim>\<open>FileSaveError\<close>, \<open>msg\<close> being \<^verbatim>\<open>str(e)\<close>) and the dialog \<^verbatim>\<open>self.output_filename\<close>,
  which returns the name the user chooses for a caption and a default.
\<close>

record env =
  filt :: "filter_call \<Rightarrow> trace \<Rightarrow> trace"
  io_save :: "trace list \<Rightarrow> string \<Rightarrow> string \<Rightarrow> bool \<Rightarrow> string option"
  output_filename :: "string \<Rightarrow> string \<Rightarrow> string"

text \<open>
  \<^verbatim>\<open>ExportWaveforms.call\<close>: the exception that leaves it, if any, and the events up to
  that point. The rotation and the save stand after the loop over the batches, as in
  the source.
\<close>

definition call ::
  "env \<Rightarrow> snuffling \<Rightarrow> viewer \<Rightarrow> store \<Rightarrow> tref list list \<Rightarrow> error option \<times> event list" where
  "call e self v h chopper =
     (let out_filename =
            output_filename e ''Template for output files'' (default_output_filename self)
      in case loop_batches (filt e) self v h None chopper of
           Inl err \<Rightarrow> (Some err, [])
         | Inr (h1, traces_save) \<Rightarrow>
             (case rotation self v h1 traces_save of
                Inl err \<Rightarrow> (Some err, [])
              | Inr h2 \<Rightarrow>
                  (case traces_save of
                     None \<Rightarrow> (Some (UnboundLocalError ''traces_save''), [])
                   | Some ts \<Rightarrow>
                       (let saved = Save (map h2 ts) out_filename (format self) True in
                        case io_save e (map h2 ts) out_filename (format self) True of
                          Some msg \<Rightarrow> (Some (SnufflingCallFailed msg), [saved])
                        | None \<Rightarrow>
                            (let evs = [saved, Info_saved_waveforms out_filename] in
                             if save_stations self then
                               (let fn = output_filename e ''Save Stations'' ''stations.pf''
                                in (None, evs @ [Dump_stations fn, Info_saved_stations fn]))
                             else (None, evs))))))"

subsection \<open>Notions used in the statements\<close>

text \<open>
  The ordered pairs of a list of traces that satisfy the condition of the rotation, in
  the order in which the two loops meet them.
\<close>

definition matched_pairs :: "store \<Rightarrow> tref list \<Rightarrow> (tref \<times> tref) list" where
  "matched_pairs h ts = filter (\<lambda>(a, b). pairable (h a) (h b)) (List.product ts ts)"

text \<open>Two traces that differ at most in the values of their samples.\<close>

definition same_shape :: "trace \<Rightarrow> trace \<Rightarrow> bool" where
  "same_shape t t' =
     (network t = network t' \<and> station t = station t' \<and> location t = location t'
      \<and> channel t = channel t' \<and> deltat t = deltat t' \<and> tmin t = tmin t'
      \<and> length (ydata t) = length (ydata t'))"

subsection \<open>Example inputs\<close>

text \<open>
  Three traces of one station with the same sampling and start (a north component and
  two east components of different instruments), a store that holds them at the
  references 0, 1 and 2, collaborators whose save succeeds or fails, and settings of
  the snuffling and of the viewer. The theorems below evaluate the model on them.
\<close>

definition tr_N :: trace where
  "tr_N = \<lparr>network = ''XX'', station = ''AAA'', location = [], channel = ''BHN'',
            deltat = 0.01, tmin = 0, ydata = [1, 2]\<rparr>"

definition tr_E :: trace where
  "tr_E = \<lparr>network = ''XX'', station = ''AAA'', location = [], channel = ''BHE'',
            deltat = 0.01, tmin = 0, ydata = [3, 4]\<rparr>"

definition tr_E2 :: trace where
  "tr_E2 = \<lparr>network = ''XX'', station = ''AAA'', location = [], channel = ''HHE'',
            deltat = 0.01, tmin = 0, ydata = [5, 6]\<rparr>"

definition store3 :: store where
  "store3 = (\<lambda>r. if r = 0 then tr_N else if r = 1 then tr_E else tr_E2)"

definition env_ok :: env where
  "env_ok = \<lparr>filt = (\<lambda>c t. t), io_save = (\<lambda>ts fn fmt ow. None),
             output_filename = (\<lambda>caption dflt. dflt)\<rparr>"

definition env_fail :: env where
  "env_fail = \<lparr>filt = (\<lambda>c t. t), io_save = (\<lambda>ts fn fmt ow. Some ''disk full''),
             output_filename = (\<lambda>caption dflt. dflt)\<rparr>"

definition self_sac :: snuffling where
  "self_sac = \<lparr>format = ''sac'', tinc = None, save_stations = False, apply_filter = False\<rparr>"

definition viewer0 :: viewer where
  "viewer0 = \<lparr>lowpass = None, highpass = None, rotate_v = 0\<rparr>"

definition self_rot :: snuffling where
  "self_rot = \<lparr>format = ''sac'', tinc = None, save_stations = False, apply_filter = True\<rparr>"

definition viewer90 :: viewer where
  "viewer90 = \<lparr>lowpass = None, highpass = None, rotate_v = 90\<rparr>"

text \<open>
  A stand-in for the filters that replaces the samples by a record of the call: which
  filter, its order, its corner frequencies and whether it demeans.
\<close>

definition filt_mark :: "filter_call \<Rightarrow> trace \<Rightarrow> trace" where
  "filt_mark c t =
     t\<lparr>ydata := (case c of
                    Bandpass n hp lp \<Rightarrow> [1, real n, hp, lp]
                  | Lowpass n fc dm \<Rightarrow> [2, real n, fc, if dm then 1 else 0]
                  | Highpass n fc dm \<Rightarrow> [3, real n, fc, if dm then 1 else 0])\<rparr>"

section \<open>Properties\<close>

subsection \<open>The default output filename\<close>

lemma template_has_codes:
  "sublist ''%n'' (template self)" "sublist ''%s'' (template self)"
  "sublist ''%l'' (template self)" "sublist ''%c'' (template self)"
proof -
  have n: "template self = ''trace_'' @ ''%n'' @ drop 8 (template self)"
    by (simp add: template_def)
  have s: "template self = ''trace_%n.'' @ ''%s'' @ drop 11 (template self)"
    by (simp add: template_def)
  have l: "template self = ''trace_%n.%s.'' @ ''%l'' @ drop 14 (template self)"
    by (simp add: template_def)
  have c: "template self = ''trace_%n.%s.%l.'' @ ''%c'' @ drop 17 (template self)"
    by (simp add: template_def)
  show "sublist ''%n'' (template self)" by (subst n) (rule sublist_appendI)
  show "sublist ''%s'' (template self)" by (subst s) (rule sublist_appendI)
  show "sublist ''%l'' (template self)" by (subst l) (rule sublist_appendI)
  show "sublist ''%c'' (template self)" by (subst c) (rule sublist_appendI)
qed

lemma default_output_filename_append:
  "default_output_filename self =
     template self @ (if format self = ''text'' then ''.dat'' else ''.'' @ format self)"
  by (simp add: default_output_filename_def)

lemma sublist_default_output_filename:
  "sublist xs (template self) \<Longrightarrow> sublist xs (default_output_filename self)"
  unfolding default_output_filename_append sublist_append by blast

lemma tmin_us_present:
  assumes "tinc self \<noteq> None"
  shows "sublist ''%(tmin_us)s'' (default_output_filename self)"
proof -
  have "template self = ''trace_%n.%s.%l.%c_'' @ ''%(tmin_us)s'' @ []"
    using assms by (simp add: template_def)
  then have "sublist ''%(tmin_us)s'' (template self)"
    by (metis sublist_appendI)
  then show ?thesis by (rule sublist_default_output_filename)
qed

lemma tmin_us_absent:
  assumes "tinc self = None" and "format self \<in> set format_choices"
  shows "\<not> sublist ''%(tmin_us)s'' (default_output_filename self)"
proof
  assume "sublist ''%(tmin_us)s'' (default_output_filename self)"
  then have "set ''%(tmin_us)s'' \<subseteq> set (default_output_filename self)"
    by (rule set_mono_sublist)
  then have "CHR ''('' \<in> set (default_output_filename self)"
    by simp
  then show False
    using assms by (auto simp: default_output_filename_def template_def format_choices_def)
qed

text \<open>
  C9. For a format among the choices of the snuffling, the default filename contains the
  placeholders \<^verbatim>\<open>%n\<close>, \<^verbatim>\<open>%s\<close>, \<^verbatim>\<open>%l\<close> and \<^verbatim>\<open>%c\<close>; it contains the placeholder of the
  start time in microseconds, \<^verbatim>\<open>%(tmin_us)s\<close>, exactly when \<^verbatim>\<open>tinc\<close> is not \<^verbatim>\<open>None\<close>; it
  ends in \<^verbatim>\<open>.dat\<close> for the format \<^verbatim>\<open>text\<close> and in a dot and the name of the format for
  every other format.
\<close>

theorem default_output_filename_contents:
  assumes "format self \<in> set format_choices"
  shows "sublist ''%n'' (default_output_filename self)
       \<and> sublist ''%s'' (default_output_filename self)
       \<and> sublist ''%l'' (default_output_filename self)
       \<and> sublist ''%c'' (default_output_filename self)
       \<and> (sublist ''%(tmin_us)s'' (default_output_filename self) \<longleftrightarrow> tinc self \<noteq> None)
       \<and> (format self = ''text'' \<longrightarrow> suffix ''.dat'' (default_output_filename self))
       \<and> (format self \<noteq> ''text'' \<longrightarrow>
            suffix (''.'' @ format self) (default_output_filename self))"
proof -
  let ?f = "default_output_filename self"
  have codes: "sublist ''%n'' ?f" "sublist ''%s'' ?f" "sublist ''%l'' ?f" "sublist ''%c'' ?f"
    by (rule sublist_default_output_filename, rule template_has_codes)+
  have tm: "sublist ''%(tmin_us)s'' ?f \<longleftrightarrow> tinc self \<noteq> None"
    using tmin_us_present [of self] tmin_us_absent [OF _ assms] by blast
  have ext1: "format self = ''text'' \<longrightarrow> suffix ''.dat'' ?f"
    by (simp add: default_output_filename_append suffix_def)
  have ext2: "format self \<noteq> ''text'' \<longrightarrow> suffix (''.'' @ format self) ?f"
    by (simp add: default_output_filename_append suffix_def)
  show ?thesis
    using codes tm ext1 ext2 by blast
qed

theorem default_output_filename_contents_witness:
  "format \<lparr>format = ''text'', tinc = Some 60, save_stations = False, apply_filter = False\<rparr>
     \<in> set format_choices
   \<and> sublist ''%(tmin_us)s'' (default_output_filename
        \<lparr>format = ''text'', tinc = Some 60, save_stations = False, apply_filter = False\<rparr>)
   \<and> suffix ''.dat'' (default_output_filename
        \<lparr>format = ''text'', tinc = Some 60, save_stations = False, apply_filter = False\<rparr>)"
  using default_output_filename_contents [of "\<lparr>format = ''text'', tinc = Some 60, save_stations = False, apply_filter = False\<rparr>"]
  by (simp add: format_choices_def)

subsection \<open>Truncation of the codes\<close>

lemma truncate_codes_mseed:
  "format self = ''mseed'' \<Longrightarrow>
   truncate_codes self tr =
     tr\<lparr>network := take 2 (network tr), station := take 5 (station tr),
        location := take 2 (location tr), channel := take 3 (channel tr)\<rparr>"
  by (simp add: truncate_codes_def Let_def)

lemma truncate_codes_other: "format self \<noteq> ''mseed'' \<Longrightarrow> truncate_codes self tr = tr"
  by (simp add: truncate_codes_def)

lemma truncate_codes_idem:
  "truncate_codes self (truncate_codes self tr) = truncate_codes self tr"
  by (cases "format self = ''mseed''") (simp_all add: truncate_codes_mseed truncate_codes_other)

text \<open>
  C5. The codes are cut only for the format \<^verbatim>\<open>mseed\<close>: there the network keeps its first
  2 characters, the station its first 5, the location its first 2 and the channel its
  first 3, and nothing else of the trace changes. Under every other format, and for a
  trace whose four codes are within these lengths, the trace is unchanged; a trace that
  has changed was exported as \<^verbatim>\<open>mseed\<close> and had a code over its limit. Cutting twice is
  cutting once.
\<close>

theorem truncate_codes_mseed_only:
  "(format self = ''mseed'' \<longrightarrow>
      network (truncate_codes self tr) = take 2 (network tr)
    \<and> station (truncate_codes self tr) = take 5 (station tr)
    \<and> location (truncate_codes self tr) = take 2 (location tr)
    \<and> channel (truncate_codes self tr) = take 3 (channel tr)
    \<and> deltat (truncate_codes self tr) = deltat tr
    \<and> tmin (truncate_codes self tr) = tmin tr
    \<and> ydata (truncate_codes self tr) = ydata tr)
   \<and> (format self \<noteq> ''mseed'' \<longrightarrow> truncate_codes self tr = tr)
   \<and> (length (network tr) \<le> 2 \<and> length (station tr) \<le> 5
        \<and> length (location tr) \<le> 2 \<and> length (channel tr) \<le> 3 \<longrightarrow>
        truncate_codes self tr = tr)
   \<and> (truncate_codes self tr \<noteq> tr \<longrightarrow>
        format self = ''mseed''
        \<and> (length (network tr) > 2 \<or> length (station tr) > 5
             \<or> length (location tr) > 2 \<or> length (channel tr) > 3))
   \<and> truncate_codes self (truncate_codes self tr) = truncate_codes self tr"
proof -
  have other: "format self \<noteq> ''mseed'' \<longrightarrow> truncate_codes self tr = tr"
    by (simp add: truncate_codes_other)
  have short: "length (network tr) \<le> 2 \<and> length (station tr) \<le> 5
        \<and> length (location tr) \<le> 2 \<and> length (channel tr) \<le> 3 \<longrightarrow>
        truncate_codes self tr = tr"
    by (simp add: truncate_codes_def)
  have fields: "format self = ''mseed'' \<longrightarrow>
      network (truncate_codes self tr) = take 2 (network tr)
    \<and> station (truncate_codes self tr) = take 5 (station tr)
    \<and> location (truncate_codes self tr) = take 2 (location tr)
    \<and> channel (truncate_codes self tr) = take 3 (channel tr)
    \<and> deltat (truncate_codes self tr) = deltat tr
    \<and> tmin (truncate_codes self tr) = tmin tr
    \<and> ydata (truncate_codes self tr) = ydata tr"
    by (simp add: truncate_codes_mseed)
  have changed: "truncate_codes self tr \<noteq> tr \<longrightarrow>
        format self = ''mseed''
        \<and> (length (network tr) > 2 \<or> length (station tr) > 5
             \<or> length (location tr) > 2 \<or> length (channel tr) > 3)"
    using other short by (metis not_le_imp_less)
  show ?thesis
    using fields other short changed truncate_codes_idem [of self tr] by blast
qed

theorem truncate_codes_mseed_only_witness:
  "network (truncate_codes
      \<lparr>format = ''mseed'', tinc = None, save_stations = False, apply_filter = False\<rparr>
      \<lparr>network = ''ABCDE'', station = ''STATION'', location = [], channel = ''BHZ'',
       deltat = 1, tmin = 0, ydata = [1, 2]\<rparr>) = ''AB''
   \<and> station (truncate_codes
      \<lparr>format = ''mseed'', tinc = None, save_stations = False, apply_filter = False\<rparr>
      \<lparr>network = ''ABCDE'', station = ''STATION'', location = [], channel = ''BHZ'',
       deltat = 1, tmin = 0, ydata = [1, 2]\<rparr>) = ''STATI''
   \<and> truncate_codes
      \<lparr>format = ''sac'', tinc = None, save_stations = False, apply_filter = False\<rparr>
      \<lparr>network = ''ABCDE'', station = ''STATION'', location = [], channel = ''BHZ'',
       deltat = 1, tmin = 0, ydata = [1, 2]\<rparr> =
      \<lparr>network = ''ABCDE'', station = ''STATION'', location = [], channel = ''BHZ'',
       deltat = 1, tmin = 0, ydata = [1, 2]\<rparr>"
  using truncate_codes_mseed_only [of "\<lparr>format = ''mseed'', tinc = None, save_stations = False, apply_filter = False\<rparr>"
      "\<lparr>network = ''ABCDE'', station = ''STATION'', location = [], channel = ''BHZ'',
       deltat = 1, tmin = 0, ydata = [1, 2]\<rparr>"]
    truncate_codes_mseed_only [of "\<lparr>format = ''sac'', tinc = None, save_stations = False, apply_filter = False\<rparr>"
      "\<lparr>network = ''ABCDE'', station = ''STATION'', location = [], channel = ''BHZ'',
       deltat = 1, tmin = 0, ydata = [1, 2]\<rparr>"]
  by simp

subsection \<open>Filtering\<close>

text \<open>
  C6. With \<^verbatim>\<open>apply_filter\<close> set, the two cutoffs of the viewer select one of four
  branches, tested in this order. Both set: the bandpass of order 2 from the highpass to
  the lowpass cutoff, whatever the sampling interval. Only the lowpass set: the lowpass
  of order 4 without demeaning when the cutoff is below \<^verbatim>\<open>0.5/deltat\<close>, the trace as it is
  otherwise (and \<^verbatim>\<open>ZeroDivisionError\<close> for a sampling interval of zero). Only the highpass
  set: the same with the highpass of order 4. None set: the trace as it is.
\<close>

theorem apply_filters_branches:
  assumes "apply_filter self"
  shows "(lowpass v = Some lp \<and> highpass v = Some hp \<longrightarrow>
            apply_filters f self v tr = Inr (f (Bandpass 2 hp lp) tr))
       \<and> (lowpass v = Some lp \<and> highpass v = None \<longrightarrow>
            apply_filters f self v tr =
              (if deltat tr = 0 then Inl ZeroDivisionError
               else if lp < 0.5 / deltat tr then Inr (f (Lowpass 4 lp False) tr)
               else Inr tr))
       \<and> (lowpass v = None \<and> highpass v = Some hp \<longrightarrow>
            apply_filters f self v tr =
              (if deltat tr = 0 then Inl ZeroDivisionError
               else if hp < 0.5 / deltat tr then Inr (f (Highpass 4 hp False) tr)
               else Inr tr))
       \<and> (lowpass v = None \<and> highpass v = None \<longrightarrow>
            apply_filters f self v tr = Inr tr)"
  using assms by (simp add: apply_filters_def)

theorem apply_filters_branches_witness:
  "apply_filters filt_mark self_rot \<lparr>lowpass = Some 10, highpass = Some 1, rotate_v = 0\<rparr> tr_N
     = Inr (tr_N\<lparr>ydata := [1, 2, 1, 10]\<rparr>)
   \<and> apply_filters filt_mark self_rot \<lparr>lowpass = Some 10, highpass = None, rotate_v = 0\<rparr> tr_N
     = Inr (tr_N\<lparr>ydata := [2, 4, 10, 0]\<rparr>)
   \<and> apply_filters filt_mark self_rot \<lparr>lowpass = None, highpass = Some 1, rotate_v = 0\<rparr> tr_N
     = Inr (tr_N\<lparr>ydata := [3, 4, 1, 0]\<rparr>)
   \<and> apply_filters filt_mark self_rot \<lparr>lowpass = None, highpass = None, rotate_v = 0\<rparr> tr_N
     = Inr tr_N
   \<and> apply_filters filt_mark self_rot \<lparr>lowpass = Some 60, highpass = None, rotate_v = 0\<rparr> tr_N
     = Inr tr_N"
  using apply_filters_branches [of self_rot "\<lparr>lowpass = Some 10, highpass = Some 1, rotate_v = 0\<rparr>" 10 1
              filt_mark tr_N]
    apply_filters_branches [of self_rot "\<lparr>lowpass = Some 10, highpass = None, rotate_v = 0\<rparr>" 10 1
              filt_mark tr_N]
    apply_filters_branches [of self_rot "\<lparr>lowpass = None, highpass = Some 1, rotate_v = 0\<rparr>" 10 1
              filt_mark tr_N]
    apply_filters_branches [of self_rot "\<lparr>lowpass = None, highpass = None, rotate_v = 0\<rparr>" 10 1
              filt_mark tr_N]
    apply_filters_branches [of self_rot "\<lparr>lowpass = Some 60, highpass = None, rotate_v = 0\<rparr>" 60 1
              filt_mark tr_N]
  by (simp add: self_rot_def tr_N_def filt_mark_def)

text \<open>
  C7. With \<^verbatim>\<open>apply_filter\<close> set, one cutoff only and a sampling interval that is not
  zero, the filter of order 4 runs with \<^verbatim>\<open>demean=False\<close> exactly when the cutoff is
  strictly below \<^verbatim>\<open>0.5/deltat\<close>; otherwise the trace is returned as it is, without an
  error.
\<close>

theorem apply_filters_nyquist:
  assumes "apply_filter self" and "deltat tr \<noteq> 0"
  shows "(lowpass v = Some c \<and> highpass v = None \<longrightarrow>
            apply_filters f self v tr =
              (if c < 0.5 / deltat tr then Inr (f (Lowpass 4 c False) tr) else Inr tr))
       \<and> (lowpass v = None \<and> highpass v = Some c \<longrightarrow>
            apply_filters f self v tr =
              (if c < 0.5 / deltat tr then Inr (f (Highpass 4 c False) tr) else Inr tr))"
  using assms by (simp add: apply_filters_def)

theorem apply_filters_nyquist_witness:
  "apply_filters (\<lambda>c t. t\<lparr>ydata := []\<rparr>)
     \<lparr>format = ''mseed'', tinc = None, save_stations = False, apply_filter = True\<rparr>
     \<lparr>lowpass = Some 10, highpass = None, rotate_v = 0\<rparr>
     \<lparr>network = ''XX'', station = ''AAA'', location = [], channel = ''BHZ'',
      deltat = 0.1, tmin = 0, ydata = [1, 2]\<rparr>
   = Inr \<lparr>network = ''XX'', station = ''AAA'', location = [], channel = ''BHZ'',
      deltat = 0.1, tmin = 0, ydata = [1, 2]\<rparr>
   \<and> apply_filters (\<lambda>c t. t\<lparr>ydata := []\<rparr>)
     \<lparr>format = ''mseed'', tinc = None, save_stations = False, apply_filter = True\<rparr>
     \<lparr>lowpass = None, highpass = Some 2, rotate_v = 0\<rparr>
     \<lparr>network = ''XX'', station = ''AAA'', location = [], channel = ''BHZ'',
      deltat = 0.1, tmin = 0, ydata = [1, 2]\<rparr>
   = Inr \<lparr>network = ''XX'', station = ''AAA'', location = [], channel = ''BHZ'',
      deltat = 0.1, tmin = 0, ydata = []\<rparr>"
  using apply_filters_nyquist [of "\<lparr>format = ''mseed'', tinc = None, save_stations = False, apply_filter = True\<rparr>"
      "\<lparr>network = ''XX'', station = ''AAA'', location = [], channel = ''BHZ'',
        deltat = 0.1, tmin = 0, ydata = [1, 2]\<rparr>"
      "\<lparr>lowpass = Some 10, highpass = None, rotate_v = 0\<rparr>" 10
      "\<lambda>c t. t\<lparr>ydata := []\<rparr>"]
    apply_filters_nyquist [of "\<lparr>format = ''mseed'', tinc = None, save_stations = False, apply_filter = True\<rparr>"
      "\<lparr>network = ''XX'', station = ''AAA'', location = [], channel = ''BHZ'',
        deltat = 0.1, tmin = 0, ydata = [1, 2]\<rparr>"
      "\<lparr>lowpass = None, highpass = Some 2, rotate_v = 0\<rparr>" 2
      "\<lambda>c t. t\<lparr>ydata := []\<rparr>"]
  by simp

subsection \<open>The export\<close>

lemma loop_traces_appends:
  "loop_traces f self v h ts trs = Inr (h', ts') \<Longrightarrow> ts' = ts @ trs"
proof (induction trs arbitrary: h ts)
  case Nil
  then show ?case by simp
next
  case (Cons tr trs)
  from Cons.prems obtain tr' where
    "loop_traces f self v (h(tr := tr')) (ts @ [tr]) trs = Inr (h', ts')"
    by (auto split: sum.splits)
  then have "ts' = (ts @ [tr]) @ trs"
    by (rule Cons.IH)
  then show ?case by simp
qed

lemma loop_batches_last:
  "loop_batches f self v h ts chopper = Inr (h', ts') \<Longrightarrow>
   ts' = (if chopper = [] then ts else Some (last chopper))"
proof (induction chopper arbitrary: h ts)
  case Nil
  then show ?case by simp
next
  case (Cons trs rest)
  then show ?case
    by (auto split: sum.splits dest: loop_traces_appends)
qed

lemma call_empty: "call e self v h [] = (Some (UnboundLocalError ''traces_save''), [])"
  by (simp add: call_def rotation_def)

text \<open>
  C10. When the chopper yields no batch, \<^verbatim>\<open>traces_save\<close> is never assigned: the call ends
  with \<^verbatim>\<open>UnboundLocalError\<close> and without any event, so \<^verbatim>\<open>io.save\<close> is not called. A call
  that reaches \<^verbatim>\<open>io.save\<close> had at least one batch.
\<close>

theorem call_without_batches:
  "call e self v h [] = (Some (UnboundLocalError ''traces_save''), [])
   \<and> (\<forall>ts fn fmt ow. Save ts fn fmt ow \<in> set (snd (call e self v h chopper)) \<longrightarrow>
        chopper \<noteq> [])"
proof -
  have "Save ts fn fmt ow \<in> set (snd (call e self v h chopper)) \<longrightarrow> chopper \<noteq> []"
    for ts fn fmt ow
    using call_empty [of e self v h] by auto
  then show ?thesis
    using call_empty by blast
qed

text \<open>
  C8. When the call of \<^verbatim>\<open>io.save\<close> that \<^verbatim>\<open>call\<close> makes fails with a message, \<^verbatim>\<open>call\<close>
  ends with the failure that carries this message, and that one call of \<^verbatim>\<open>io.save\<close> is
  all it has done: it is not repeated, nothing is logged and no station is dumped. The
  loop over the batches has ended before \<^verbatim>\<open>io.save\<close> is called, so no batch follows.
\<close>

theorem save_failure_is_fatal:
  assumes "Save ts fn fmt ow \<in> set (snd (call e self v h chopper))"
    and "io_save e ts fn fmt ow = Some msg"
  shows "call e self v h chopper = (Some (SnufflingCallFailed msg), [Save ts fn fmt ow])"
  using assms
  by (auto simp: call_def Let_def split: sum.splits option.splits prod.splits if_splits)

text \<open>
  Whatever the chopper yields, the traces that \<^verbatim>\<open>call\<close> passes to \<^verbatim>\<open>io.save\<close> are those of
  the last batch.
\<close>

lemma call_save_is_last_batch:
  assumes "Save ts fn fmt ow \<in> set (snd (call e self v h chopper))"
  shows "chopper \<noteq> [] \<and> (\<exists>h2. ts = map h2 (last chopper))"
proof -
  from assms obtain h1 h2 tsv where
    lb: "loop_batches (filt e) self v h None chopper = Inr (h1, Some tsv)"
    and ts: "ts = map h2 tsv"
    by (auto simp: call_def Let_def split: sum.splits option.splits prod.splits if_splits)
  from loop_batches_last [OF lb] have "chopper \<noteq> []" and "tsv = last chopper"
    by (auto split: if_splits)
  with ts show ?thesis by blast
qed

lemmas ex_defs = tr_N_def tr_E_def tr_E2_def store3_def env_ok_def env_fail_def self_sac_def
  viewer0_def

lemmas call_defs = call_def rotation_def condition_trace_def apply_filters_def
  truncate_codes_def default_output_filename_def template_def Let_def

text \<open>
  C1, evaluated. The chopper yields two batches, the north trace and then the first east
  trace. The rotation and the save stand after the loop over the batches: \<^verbatim>\<open>io.save\<close> is
  called once, with the traces of the last batch only, and the trace of the first batch
  is never saved.
\<close>

theorem call_saves_last_batch_only:
  "call env_ok self_sac viewer0 store3 [[0], [1]] =
     (None, [Save [tr_E] ''trace_%n.%s.%l.%c.sac'' ''sac'' True,
             Info_saved_waveforms ''trace_%n.%s.%l.%c.sac''])"
  by (simp add: call_defs ex_defs)

theorem call_without_batches_witness:
  "call env_ok self_sac viewer0 store3 [] = (Some (UnboundLocalError ''traces_save''), [])
   \<and> Save [tr_N] ''trace_%n.%s.%l.%c.sac'' ''sac'' True
        \<in> set (snd (call env_ok self_sac viewer0 store3 [[0]]))
   \<and> [[0::nat]] \<noteq> []"
  using call_without_batches [of env_ok self_sac viewer0 store3 "[[0]]"]
  by (simp add: call_defs ex_defs)

theorem save_failure_is_fatal_witness:
  "call env_fail self_sac viewer0 store3 [[0]] =
     (Some (SnufflingCallFailed ''disk full''),
      [Save [tr_N] ''trace_%n.%s.%l.%c.sac'' ''sac'' True])"
proof -
  have s: "Save [tr_N] ''trace_%n.%s.%l.%c.sac'' ''sac'' True
             \<in> set (snd (call env_fail self_sac viewer0 store3 [[0]]))"
    by (simp add: call_defs ex_defs)
  have f: "io_save env_fail [tr_N] ''trace_%n.%s.%l.%c.sac'' ''sac'' True = Some ''disk full''"
    by (simp add: env_fail_def)
  show ?thesis
    by (rule save_failure_is_fatal [OF s f])
qed

subsection \<open>Rotation of the horizontal components\<close>

lemma lower_char_n: "lower_char c = CHR ''n'' \<longleftrightarrow> c = CHR ''N'' \<or> c = CHR ''n''"
  by (simp add: lower_char_def)

lemma lower_char_e: "lower_char c = CHR ''e'' \<longleftrightarrow> c = CHR ''E'' \<or> c = CHR ''e''"
  by (simp add: lower_char_def)

lemma endswith_single: "endswith s [c] \<longleftrightarrow> s \<noteq> [] \<and> last s = c"
proof (cases s rule: rev_cases)
  case Nil
  then show ?thesis by (simp add: endswith_def)
next
  case (snoc ys y)
  then show ?thesis by (auto simp: endswith_def)
qed

lemma endswith_lower_single:
  "endswith (lower s) [d] \<longleftrightarrow> s \<noteq> [] \<and> lower_char (last s) = d"
  by (auto simp: endswith_single lower_def last_map)

lemma endswith_lower_n:
  "endswith (lower s) ''n'' \<longleftrightarrow> s \<noteq> [] \<and> (last s = CHR ''N'' \<or> last s = CHR ''n'')"
  by (simp add: endswith_lower_single lower_char_n)

lemma endswith_lower_e:
  "endswith (lower s) ''e'' \<longleftrightarrow> s \<noteq> [] \<and> (last s = CHR ''E'' \<or> last s = CHR ''e'')"
  by (simp add: endswith_lower_single lower_char_e)

lemma pairable_iff:
  "pairable a b \<longleftrightarrow>
     network a = network b \<and> station a = station b \<and> location a = location b
     \<and> ((channel a \<noteq> [] \<and> (last (channel a) = CHR ''N'' \<or> last (channel a) = CHR ''n'')
          \<and> channel b \<noteq> [] \<and> (last (channel b) = CHR ''E'' \<or> last (channel b) = CHR ''e''))
         \<or> (channel a \<noteq> [] \<and> last (channel a) = CHR ''1''
             \<and> channel b \<noteq> [] \<and> last (channel b) = CHR ''2''))
     \<and> \<bar>deltat a - deltat b\<bar> < deltat a * 0.001
     \<and> \<bar>tmin a - tmin b\<bar> < deltat a * 0.01
     \<and> length (ydata a) = length (ydata b)"
  unfolding pairable_def unfolding endswith_lower_n endswith_lower_e unfolding endswith_single
  by blast

lemma pairable_irrefl: "\<not> pairable a a"
  by (auto simp: pairable_iff)

lemma pairable_asym: "pairable a b \<Longrightarrow> \<not> pairable b a"
  by (auto simp: pairable_iff)

lemma pairable_same_shape:
  "same_shape a a' \<Longrightarrow> same_shape b b' \<Longrightarrow> pairable a' b' = pairable a b"
  by (simp add: pairable_def same_shape_def)

lemma rotate_pair_apply:
  "rotate_pair c s a b h r =
     (if r = b then
        (if a = b then (h a)\<lparr>ydata := map2 (\<lambda>x y. - x * s + y * c) (ydata (h a)) (ydata (h b))\<rparr>
         else (h b)\<lparr>ydata := map2 (\<lambda>x y. - x * s + y * c) (ydata (h a)) (ydata (h b))\<rparr>)
      else if r = a then
        (h a)\<lparr>ydata := map2 (\<lambda>x y. x * c + y * s) (ydata (h a)) (ydata (h b))\<rparr>
      else h r)"
  by (simp add: rotate_pair_def Let_def)

lemma rotate_pair_same_shape:
  assumes "length (ydata (h a)) = length (ydata (h b))"
  shows "same_shape (h r) (rotate_pair c s a b h r)"
  using assms by (simp add: rotate_pair_apply same_shape_def)

lemma same_shape_refl: "same_shape t t"
  by (simp add: same_shape_def)

lemma same_shape_trans: "same_shape t u \<Longrightarrow> same_shape u w \<Longrightarrow> same_shape t w"
  by (simp add: same_shape_def)

lemma pairable_length: "pairable a b \<Longrightarrow> length (ydata a) = length (ydata b)"
  by (simp add: pairable_def)

text \<open>The inner loop, for a store of the shape of \<open>h0\<close>.\<close>

lemma loop_b_fold:
  assumes "\<forall>r. same_shape (h0 r) (h r)"
  shows "loop_b c s a h bs =
           foldl (\<lambda>h (a, b). rotate_pair c s a b h) h
             (filter (\<lambda>(a, b). pairable (h0 a) (h0 b)) (map (Pair a) bs))
         \<and> (\<forall>r. same_shape (h0 r) (loop_b c s a h bs r))"
  using assms
proof (induction bs arbitrary: h)
  case Nil
  then show ?case by simp
next
  case (Cons b bs)
  have p: "pairable (h a) (h b) = pairable (h0 a) (h0 b)"
    using Cons.prems by (simp add: pairable_same_shape)
  let ?h1 = "if pairable (h a) (h b) then rotate_pair c s a b h else h"
  have "\<forall>r. same_shape (h0 r) (?h1 r)"
  proof
    fix r
    show "same_shape (h0 r) (?h1 r)"
    proof (cases "pairable (h a) (h b)")
      case True
      then have "same_shape (h r) (rotate_pair c s a b h r)"
        by (intro rotate_pair_same_shape pairable_length)
      with Cons.prems True show ?thesis
        by (auto intro: same_shape_trans)
    next
      case False
      with Cons.prems show ?thesis by simp
    qed
  qed
  then have e: "loop_b c s a ?h1 bs =
           foldl (\<lambda>h (a, b). rotate_pair c s a b h) ?h1
             (filter (\<lambda>(a, b). pairable (h0 a) (h0 b)) (map (Pair a) bs))"
    and i: "\<forall>r. same_shape (h0 r) (loop_b c s a ?h1 bs r)"
    using Cons.IH [of ?h1] by blast+
  have l: "loop_b c s a h (b # bs) = loop_b c s a ?h1 bs"
    by simp
  have f: "foldl (\<lambda>h (a, b). rotate_pair c s a b h) h
             (filter (\<lambda>(a, b). pairable (h0 a) (h0 b)) (map (Pair a) (b # bs))) =
           foldl (\<lambda>h (a, b). rotate_pair c s a b h) ?h1
             (filter (\<lambda>(a, b). pairable (h0 a) (h0 b)) (map (Pair a) bs))"
    by (simp add: p)
  show ?case
    unfolding l f using e i by (rule conjI)
qed

lemma loop_a_fold:
  assumes "\<forall>r. same_shape (h0 r) (h r)"
  shows "loop_a c s ts h as =
           foldl (\<lambda>h (a, b). rotate_pair c s a b h) h
             (filter (\<lambda>(a, b). pairable (h0 a) (h0 b)) (List.product as ts))
         \<and> (\<forall>r. same_shape (h0 r) (loop_a c s ts h as r))"
  using assms
proof (induction as arbitrary: h)
  case Nil
  then show ?case by simp
next
  case (Cons a as)
  have b: "loop_b c s a h ts =
           foldl (\<lambda>h (a, b). rotate_pair c s a b h) h
             (filter (\<lambda>(a, b). pairable (h0 a) (h0 b)) (map (Pair a) ts))"
    using loop_b_fold [OF Cons.prems, of c s a ts] by (rule conjunct1)
  have sh: "\<forall>r. same_shape (h0 r) (loop_b c s a h ts r)"
    using loop_b_fold [OF Cons.prems, of c s a ts] by (rule conjunct2)
  let ?h1 = "loop_b c s a h ts"
  have e: "loop_a c s ts ?h1 as =
           foldl (\<lambda>h (a, b). rotate_pair c s a b h) ?h1
             (filter (\<lambda>(a, b). pairable (h0 a) (h0 b)) (List.product as ts))"
    and i: "\<forall>r. same_shape (h0 r) (loop_a c s ts ?h1 as r)"
    using Cons.IH [OF sh] by blast+
  have l: "loop_a c s ts h (a # as) = loop_a c s ts ?h1 as"
    by simp
  have f: "foldl (\<lambda>h (a, b). rotate_pair c s a b h) h
             (filter (\<lambda>(a, b). pairable (h0 a) (h0 b)) (List.product (a # as) ts)) =
           foldl (\<lambda>h (a, b). rotate_pair c s a b h) ?h1
             (filter (\<lambda>(a, b). pairable (h0 a) (h0 b)) (List.product as ts))"
    by (simp add: b)
  show ?case
    unfolding l f using e i by (rule conjI)
qed

lemma loop_a_matched_pairs:
  "loop_a c s ts h ts = foldl (\<lambda>h (a, b). rotate_pair c s a b h) h (matched_pairs h ts)"
  using loop_a_fold [of h h c s ts ts] by (simp add: same_shape_refl matched_pairs_def)

lemma set_matched_pairs:
  "set (matched_pairs h ts) = {(a, b). a \<in> set ts \<and> b \<in> set ts \<and> pairable (h a) (h b)}"
  by (auto simp: matched_pairs_def)

lemma distinct_matched_pairs: "distinct ts \<Longrightarrow> distinct (matched_pairs h ts)"
  by (simp add: matched_pairs_def distinct_product)

lemma matched_pairs_store3:
  "matched_pairs store3 [0, 1] = [(0, 1)]"
  "matched_pairs store3 [0, 1, 2] = [(0, 1), (0, 2)]"
  by (simp_all add: matched_pairs_def pairable_iff ex_defs)

lemma pairable_roles: "pairable a b \<Longrightarrow> \<not> pairable x a"
  by (auto simp: pairable_iff)

lemma foldl_rotate_unchanged:
  "\<forall>p \<in> set ps. fst p \<noteq> r \<and> snd p \<noteq> r \<Longrightarrow>
   foldl (\<lambda>h (a, b). rotate_pair c s a b h) h ps r = h r"
proof (induction ps arbitrary: h)
  case Nil
  then show ?case by simp
next
  case (Cons p ps)
  obtain a b where p: "p = (a, b)" by (cases p)
  from Cons.prems have ne: "a \<noteq> r" "b \<noteq> r" and rest: "\<forall>p \<in> set ps. fst p \<noteq> r \<and> snd p \<noteq> r"
    by (auto simp: p)
  have "foldl (\<lambda>h (a, b). rotate_pair c s a b h) h (p # ps) r =
        foldl (\<lambda>h (a, b). rotate_pair c s a b h) (rotate_pair c s a b h) ps r"
    by (simp add: p)
  also have "\<dots> = rotate_pair c s a b h r"
    by (rule Cons.IH [OF rest])
  also have "\<dots> = h r"
    using ne by (simp add: rotate_pair_apply)
  finally show ?case .
qed

lemma matched_pairs_lone:
  assumes "pairable (h a) (h b)"
  shows "matched_pairs h [a, b] = [(a, b)]"
  using assms pairable_irrefl [of "h a"] pairable_irrefl [of "h b"] pairable_asym [OF assms]
  by (simp add: matched_pairs_def)

lemma rotate_pair_samples:
  assumes "a \<noteq> b"
  shows "ydata (rotate_pair c s a b g a) =
           map2 (\<lambda>x y. x * c + y * s) (ydata (g a)) (ydata (g b))"
    and "ydata (rotate_pair c s a b g b) =
           map2 (\<lambda>x y. - x * s + y * c) (ydata (g a)) (ydata (g b))"
    and "r \<noteq> a \<and> r \<noteq> b \<longrightarrow> rotate_pair c s a b g r = g r"
  using assms by (simp_all add: rotate_pair_apply)

lemma pass_lone_pair:
  assumes d: "distinct ts"
    and m: "(a, b) \<in> set (matched_pairs h ts)"
    and lone: "\<forall>p \<in> set (matched_pairs h ts).
                 p = (a, b) \<or> (fst p \<noteq> a \<and> fst p \<noteq> b \<and> snd p \<noteq> a \<and> snd p \<noteq> b)"
  shows "ydata (loop_a c s ts h ts a) =
           map2 (\<lambda>x y. x * c + y * s) (ydata (h a)) (ydata (h b))
       \<and> ydata (loop_a c s ts h ts b) =
           map2 (\<lambda>x y. - x * s + y * c) (ydata (h a)) (ydata (h b))"
proof -
  let ?f = "\<lambda>h (a, b). rotate_pair c s a b h"
  from m have ne: "a \<noteq> b"
    using pairable_irrefl [of "h a"] by (auto simp: set_matched_pairs)
  from m obtain ps1 ps2 where sp: "matched_pairs h ts = ps1 @ (a, b) # ps2"
    by (auto dest: split_list)
  have dm: "distinct (ps1 @ (a, b) # ps2)"
    using distinct_matched_pairs [OF d, of h] by (simp add: sp)
  have o1: "\<forall>p \<in> set ps1. fst p \<noteq> r \<and> snd p \<noteq> r" if "r = a \<or> r = b" for r
  proof
    fix p
    assume pin: "p \<in> set ps1"
    then have "p \<noteq> (a, b)"
      using dm by auto
    moreover have "p \<in> set (matched_pairs h ts)"
      using pin by (simp add: sp)
    ultimately have "fst p \<noteq> a \<and> fst p \<noteq> b \<and> snd p \<noteq> a \<and> snd p \<noteq> b"
      using lone by blast
    then show "fst p \<noteq> r \<and> snd p \<noteq> r"
      using that by blast
  qed
  have o2: "\<forall>p \<in> set ps2. fst p \<noteq> r \<and> snd p \<noteq> r" if "r = a \<or> r = b" for r
  proof
    fix p
    assume pin: "p \<in> set ps2"
    then have "p \<noteq> (a, b)"
      using dm by auto
    moreover have "p \<in> set (matched_pairs h ts)"
      using pin by (simp add: sp)
    ultimately have "fst p \<noteq> a \<and> fst p \<noteq> b \<and> snd p \<noteq> a \<and> snd p \<noteq> b"
      using lone by blast
    then show "fst p \<noteq> r \<and> snd p \<noteq> r"
      using that by blast
  qed
  let ?h1 = "foldl ?f h ps1"
  let ?h2 = "rotate_pair c s a b ?h1"
  have h1: "?h1 a = h a" "?h1 b = h b"
    using foldl_rotate_unchanged [OF o1] by simp_all
  have l: "loop_a c s ts h ts = foldl ?f ?h2 ps2"
    by (simp add: loop_a_matched_pairs sp)
  have "loop_a c s ts h ts a = ?h2 a" "loop_a c s ts h ts b = ?h2 b"
    unfolding l using foldl_rotate_unchanged [OF o2] by simp_all
  then show ?thesis
    using rotate_pair_samples [where a = a and b = b and c = c and s = s and g = "?h1"] ne h1
    by simp
qed

lemma pass_no_partner:
  assumes "\<forall>x \<in> set ts. \<not> pairable (h r) (h x) \<and> \<not> pairable (h x) (h r)"
  shows "loop_a c s ts h ts r = h r"
proof -
  have "\<forall>p \<in> set (matched_pairs h ts). fst p \<noteq> r \<and> snd p \<noteq> r"
    using assms by (auto simp: set_matched_pairs)
  then show ?thesis
    unfolding loop_a_matched_pairs by (rule foldl_rotate_unchanged)
qed

text \<open>
  C2. The condition under which the two loops rotate a trace \<open>a\<close> with a trace \<open>b\<close>: the
  same network, station and location; the channel of \<open>a\<close> ends in \<^verbatim>\<open>N\<close> or \<^verbatim>\<open>n\<close> and that
  of \<open>b\<close> in \<^verbatim>\<open>E\<close> or \<^verbatim>\<open>e\<close>, or the channel of \<open>a\<close> ends in \<^verbatim>\<open>1\<close> and that of \<open>b\<close> in \<^verbatim>\<open>2\<close>;
  the sampling intervals differ by less than a thousandth of that of \<open>a\<close>; the start
  times differ by less than a hundredth of the sampling interval of \<open>a\<close>; the numbers
  of samples are equal. One pass of the two loops over a list of traces rotates the
  ordered pairs of the list that satisfy this condition on entry, and no other. A pass
  over two traces that satisfy it leaves \<open>a\<close> with the samples \<open>a * c + b * s\<close> and \<open>b\<close>
  with \<open>- a * s + b * c\<close> and every other trace as it was; a trace that satisfies the
  condition with no trace of the list, in either order, leaves the pass as it entered.
\<close>

theorem pairing_condition:
  "(pairable ta tb \<longleftrightarrow>
     network ta = network tb \<and> station ta = station tb \<and> location ta = location tb
     \<and> ((channel ta \<noteq> [] \<and> (last (channel ta) = CHR ''N'' \<or> last (channel ta) = CHR ''n'')
          \<and> channel tb \<noteq> [] \<and> (last (channel tb) = CHR ''E'' \<or> last (channel tb) = CHR ''e''))
         \<or> (channel ta \<noteq> [] \<and> last (channel ta) = CHR ''1''
             \<and> channel tb \<noteq> [] \<and> last (channel tb) = CHR ''2''))
     \<and> \<bar>deltat ta - deltat tb\<bar> < deltat ta * 0.001
     \<and> \<bar>tmin ta - tmin tb\<bar> < deltat ta * 0.01
     \<and> length (ydata ta) = length (ydata tb))
   \<and> loop_a c s ts h ts = foldl (\<lambda>h (a, b). rotate_pair c s a b h) h (matched_pairs h ts)
   \<and> set (matched_pairs h ts) = {(a, b). a \<in> set ts \<and> b \<in> set ts \<and> pairable (h a) (h b)}
   \<and> (pairable (h a) (h b) \<longrightarrow>
        ydata (loop_a c s [a, b] h [a, b] a) =
          map2 (\<lambda>x y. x * c + y * s) (ydata (h a)) (ydata (h b))
        \<and> ydata (loop_a c s [a, b] h [a, b] b) =
          map2 (\<lambda>x y. - x * s + y * c) (ydata (h a)) (ydata (h b))
        \<and> (\<forall>r. r \<noteq> a \<and> r \<noteq> b \<longrightarrow> loop_a c s [a, b] h [a, b] r = h r))
   \<and> ((\<forall>x \<in> set ts. \<not> pairable (h r) (h x) \<and> \<not> pairable (h x) (h r)) \<longrightarrow>
        loop_a c s ts h ts r = h r)"
proof -
  have lone: "ydata (loop_a c s [a, b] h [a, b] a) =
          map2 (\<lambda>x y. x * c + y * s) (ydata (h a)) (ydata (h b))
        \<and> ydata (loop_a c s [a, b] h [a, b] b) =
          map2 (\<lambda>x y. - x * s + y * c) (ydata (h a)) (ydata (h b))
        \<and> (\<forall>r. r \<noteq> a \<and> r \<noteq> b \<longrightarrow> loop_a c s [a, b] h [a, b] r = h r)"
    if p: "pairable (h a) (h b)"
  proof -
    from p have ne: "a \<noteq> b"
      using pairable_irrefl by auto
    have "loop_a c s [a, b] h [a, b] = rotate_pair c s a b h"
      unfolding loop_a_matched_pairs matched_pairs_lone [OF p] by simp
    then show ?thesis
      using rotate_pair_samples [where a = a and b = b and c = c and s = s and g = h] ne
      by simp
  qed
  have none: "(\<forall>x \<in> set ts. \<not> pairable (h r) (h x) \<and> \<not> pairable (h x) (h r)) \<longrightarrow>
        loop_a c s ts h ts r = h r"
    using pass_no_partner [of ts h r c s] by blast
  show ?thesis
    using pairable_iff [of ta tb] loop_a_matched_pairs [of c s ts h] set_matched_pairs [of h ts]
      lone none
    by blast
qed

theorem pairing_condition_witness:
  "pairable (store3 0) (store3 1)
   \<and> ydata (loop_a 0 1 [0, 1] store3 [0, 1] 0) = [3, 4]
   \<and> ydata (loop_a 0 1 [0, 1] store3 [0, 1] 1) = [-1, -2]
   \<and> loop_a 0 1 [0, 1] store3 [0, 1] 2 = store3 2
   \<and> loop_a 0 1 [1, 2] store3 [1, 2] 1 = store3 1"
proof -
  note t = pairing_condition [where ta = "store3 0" and tb = "store3 1" and h = store3 and a = 0 and b = 1
      and c = 0 and s = 1 and ts = "[1, 2]" and r = 1]
  have p: "pairable (store3 0) (store3 1)"
    using t by (simp add: ex_defs)
  have "ydata (loop_a 0 1 [0, 1] store3 [0, 1] 0) =
          map2 (\<lambda>x y. x * 0 + y * 1) (ydata (store3 0)) (ydata (store3 1))"
    using t p by blast
  also have "\<dots> = [3, 4]"
    by (simp add: ex_defs)
  finally have a: "ydata (loop_a 0 1 [0, 1] store3 [0, 1] 0) = [3, 4]" .
  have "ydata (loop_a 0 1 [0, 1] store3 [0, 1] 1) =
          map2 (\<lambda>x y. - x * 1 + y * 0) (ydata (store3 0)) (ydata (store3 1))"
    using t p by blast
  also have "\<dots> = [-1, -2]"
    by (simp add: ex_defs)
  finally have b: "ydata (loop_a 0 1 [0, 1] store3 [0, 1] 1) = [-1, -2]" .
  have "(2::nat) \<noteq> 0 \<and> (2::nat) \<noteq> 1"
    by simp
  then have o: "loop_a 0 1 [0, 1] store3 [0, 1] 2 = store3 2"
    using t p by blast
  have "\<forall>x \<in> set [1, 2]. \<not> pairable (store3 1) (store3 x) \<and> \<not> pairable (store3 x) (store3 1)"
    by (simp add: pairable_iff ex_defs)
  then have n: "loop_a 0 1 [1, 2] store3 [1, 2] 1 = store3 1"
    using t by blast
  show ?thesis
    using p a b o n by blast
qed

text \<open>
  C3. The rotation stage runs the two loops exactly when the angle of the viewer is not
  zero and \<^verbatim>\<open>apply_filter\<close> is set, with the cosine and the sine of the angle in radians;
  otherwise the store is unchanged. For a pair that satisfies the condition, the new
  samples of \<open>a\<close> are \<open>a * cos + b * sin\<close> and those of \<open>b\<close> are \<open>- a * sin + b * cos\<close>,
  sample by sample, both from the samples that \<open>a\<close> and \<open>b\<close> had before the step.
\<close>

theorem rotation_gate_and_formula:
  "rotation self v h (Some ts) =
     Inr (if rotate_v v \<noteq> 0 \<and> apply_filter self
          then loop_a (cos (rotate_v v * pi / 180)) (sin (rotate_v v * pi / 180)) ts h ts
          else h)
   \<and> (pairable (h a) (h b) \<longrightarrow>
        loop_b c s a h [b] = rotate_pair c s a b h
        \<and> ydata (rotate_pair c s a b h a) =
            map2 (\<lambda>x y. x * c + y * s) (ydata (h a)) (ydata (h b))
        \<and> ydata (rotate_pair c s a b h b) =
            map2 (\<lambda>x y. - x * s + y * c) (ydata (h a)) (ydata (h b))
        \<and> (\<forall>i < length (ydata (h a)).
              ydata (rotate_pair c s a b h a) ! i = ydata (h a) ! i * c + ydata (h b) ! i * s
            \<and> ydata (rotate_pair c s a b h b) ! i = - ydata (h a) ! i * s + ydata (h b) ! i * c))"
proof -
  have gate: "rotation self v h (Some ts) =
     Inr (if rotate_v v \<noteq> 0 \<and> apply_filter self
          then loop_a (cos (rotate_v v * pi / 180)) (sin (rotate_v v * pi / 180)) ts h ts
          else h)"
    by (simp add: rotation_def Let_def)
  have pair: "loop_b c s a h [b] = rotate_pair c s a b h
        \<and> ydata (rotate_pair c s a b h a) =
            map2 (\<lambda>x y. x * c + y * s) (ydata (h a)) (ydata (h b))
        \<and> ydata (rotate_pair c s a b h b) =
            map2 (\<lambda>x y. - x * s + y * c) (ydata (h a)) (ydata (h b))
        \<and> (\<forall>i < length (ydata (h a)).
              ydata (rotate_pair c s a b h a) ! i = ydata (h a) ! i * c + ydata (h b) ! i * s
            \<and> ydata (rotate_pair c s a b h b) ! i = - ydata (h a) ! i * s + ydata (h b) ! i * c)"
    if p: "pairable (h a) (h b)"
  proof -
    from p have ne: "a \<noteq> b"
      using pairable_irrefl by auto
    from p have len: "length (ydata (h a)) = length (ydata (h b))"
      by (rule pairable_length)
    show ?thesis
      using p ne len by (simp add: rotate_pair_apply)
  qed
  show ?thesis
    using gate pair by blast
qed

theorem rotation_gate_and_formula_witness:
  "map_sum id (\<lambda>h. map (\<lambda>r. ydata (h r)) [0, 1])
     (rotation self_rot viewer90 store3 (Some [0, 1])) = Inr [[3, 4], [-1, -2]]
   \<and> pairable (store3 0) (store3 1)
   \<and> ydata (rotate_pair 0 1 0 1 store3 0) = [3, 4]
   \<and> ydata (rotate_pair 0 1 0 1 store3 1) = [-1, -2]"
  using rotation_gate_and_formula [of self_rot viewer90 store3 "[0, 1]" 0 1 0 1]
  by (simp add: pairable_iff rotate_pair_apply ex_defs self_rot_def viewer90_def)

text \<open>
  C4, refuted as stated. The north trace and two east traces of one station are one
  batch, the angle is 90 degrees. The north trace is in two matched pairs and is rotated
  with each east trace in turn: it ends with the samples of the second east trace, and
  the second east trace with the negated samples that the north trace took from the
  first.
\<close>

theorem trace_rotated_twice:
  "length (filter (\<lambda>(a, b). a = 0 \<or> b = 0) (matched_pairs store3 [0, 1, 2])) = 2
   \<and> map_sum id (\<lambda>h. map (\<lambda>r. ydata (h r)) [0, 1, 2])
       (rotation self_rot viewer90 store3 (Some [0, 1, 2]))
     = Inr [[5, 6], [-1, -2], [-3, -4]]"
proof -
  have twice: "length (filter (\<lambda>(a, b). a = 0 \<or> b = 0) (matched_pairs store3 [0, 1, 2])) = 2"
    by (subst matched_pairs_store3) simp
  have pass: "map_sum id (\<lambda>h. map (\<lambda>r. ydata (h r)) [0, 1, 2])
       (rotation self_rot viewer90 store3 (Some [0, 1, 2]))
     = Inr [[5, 6], [-1, -2], [-3, -4]]"
    by (simp add: rotation_def self_rot_def viewer90_def Let_def pairable_iff
        rotate_pair_apply ex_defs)
  show ?thesis
    using twice pass by (rule conjI)
qed

text \<open>
  C4, amended. In one pass over a list of distinct traces the loops rotate the matched
  ordered pairs of the list, each once: the list of these pairs has no repetition, and
  a pair rotated as \<open>(a, b)\<close> is not rotated as \<open>(b, a)\<close>. A trace rotated as the first
  member of a pair is never the second member of any pair, and a trace rotated as the
  second member is never the first of any pair; in particular no trace is paired with
  itself. Every rotation sets the samples of \<open>a\<close> to \<open>a * c + b * s\<close> and those of \<open>b\<close> to
  \<open>- a * s + b * c\<close>, from the samples the two have at that step, and touches no other
  trace; a pair whose traces are in no other matched pair leaves the pass with these
  values of its samples on entry. A trace can be reused in its role: it is rotated once
  with every partner that matches it.
\<close>

theorem rotation_pairs_once:
  assumes "distinct ts"
  shows "loop_a c s ts h ts = foldl (\<lambda>h (a, b). rotate_pair c s a b h) h (matched_pairs h ts)
       \<and> distinct (matched_pairs h ts)
       \<and> (\<forall>a b. (a, b) \<in> set (matched_pairs h ts) \<longrightarrow>
            a \<noteq> b \<and> (b, a) \<notin> set (matched_pairs h ts)
            \<and> (\<forall>x. (x, a) \<notin> set (matched_pairs h ts) \<and> (b, x) \<notin> set (matched_pairs h ts))
            \<and> (\<forall>g. ydata (rotate_pair c s a b g a) =
                       map2 (\<lambda>x y. x * c + y * s) (ydata (g a)) (ydata (g b))
                   \<and> ydata (rotate_pair c s a b g b) =
                       map2 (\<lambda>x y. - x * s + y * c) (ydata (g a)) (ydata (g b))
                   \<and> (\<forall>r. r \<noteq> a \<and> r \<noteq> b \<longrightarrow> rotate_pair c s a b g r = g r))
            \<and> ((\<forall>p \<in> set (matched_pairs h ts).
                    p = (a, b) \<or> (fst p \<noteq> a \<and> fst p \<noteq> b \<and> snd p \<noteq> a \<and> snd p \<noteq> b)) \<longrightarrow>
                 ydata (loop_a c s ts h ts a) =
                   map2 (\<lambda>x y. x * c + y * s) (ydata (h a)) (ydata (h b))
                 \<and> ydata (loop_a c s ts h ts b) =
                   map2 (\<lambda>x y. - x * s + y * c) (ydata (h a)) (ydata (h b))))"
proof -
  have pairs: "a \<noteq> b \<and> (b, a) \<notin> set (matched_pairs h ts)
            \<and> (\<forall>x. (x, a) \<notin> set (matched_pairs h ts) \<and> (b, x) \<notin> set (matched_pairs h ts))
            \<and> (\<forall>g. ydata (rotate_pair c s a b g a) =
                       map2 (\<lambda>x y. x * c + y * s) (ydata (g a)) (ydata (g b))
                   \<and> ydata (rotate_pair c s a b g b) =
                       map2 (\<lambda>x y. - x * s + y * c) (ydata (g a)) (ydata (g b))
                   \<and> (\<forall>r. r \<noteq> a \<and> r \<noteq> b \<longrightarrow> rotate_pair c s a b g r = g r))
            \<and> ((\<forall>p \<in> set (matched_pairs h ts).
                    p = (a, b) \<or> (fst p \<noteq> a \<and> fst p \<noteq> b \<and> snd p \<noteq> a \<and> snd p \<noteq> b)) \<longrightarrow>
                 ydata (loop_a c s ts h ts a) =
                   map2 (\<lambda>x y. x * c + y * s) (ydata (h a)) (ydata (h b))
                 \<and> ydata (loop_a c s ts h ts b) =
                   map2 (\<lambda>x y. - x * s + y * c) (ydata (h a)) (ydata (h b)))"
    if m: "(a, b) \<in> set (matched_pairs h ts)" for a b
  proof -
    from m have p: "pairable (h a) (h b)"
      by (simp add: set_matched_pairs)
    have ne: "a \<noteq> b"
      using p pairable_irrefl by auto
    have rev: "(b, a) \<notin> set (matched_pairs h ts)"
      using pairable_asym [OF p] by (simp add: set_matched_pairs)
    have roles: "\<forall>x. (x, a) \<notin> set (matched_pairs h ts) \<and> (b, x) \<notin> set (matched_pairs h ts)"
    proof
      fix x
      have "\<not> pairable (h x) (h a)"
        using p by (rule pairable_roles)
      moreover have "\<not> pairable (h b) (h x)"
        using p pairable_roles [of "h b" "h x" "h a"] by blast
      ultimately show "(x, a) \<notin> set (matched_pairs h ts) \<and> (b, x) \<notin> set (matched_pairs h ts)"
        by (simp add: set_matched_pairs)
    qed
    have step: "\<forall>g. ydata (rotate_pair c s a b g a) =
                       map2 (\<lambda>x y. x * c + y * s) (ydata (g a)) (ydata (g b))
                   \<and> ydata (rotate_pair c s a b g b) =
                       map2 (\<lambda>x y. - x * s + y * c) (ydata (g a)) (ydata (g b))
                   \<and> (\<forall>r. r \<noteq> a \<and> r \<noteq> b \<longrightarrow> rotate_pair c s a b g r = g r)"
      using ne by (simp add: rotate_pair_apply)
    have lone: "(\<forall>p \<in> set (matched_pairs h ts).
                    p = (a, b) \<or> (fst p \<noteq> a \<and> fst p \<noteq> b \<and> snd p \<noteq> a \<and> snd p \<noteq> b)) \<longrightarrow>
                 ydata (loop_a c s ts h ts a) =
                   map2 (\<lambda>x y. x * c + y * s) (ydata (h a)) (ydata (h b))
                 \<and> ydata (loop_a c s ts h ts b) =
                   map2 (\<lambda>x y. - x * s + y * c) (ydata (h a)) (ydata (h b))"
      using pass_lone_pair [OF assms m, of c s] by blast
    show ?thesis
      using ne rev roles step lone by blast
  qed
  show ?thesis
    using loop_a_matched_pairs [of c s ts h] distinct_matched_pairs [OF assms, of h] pairs
    by blast
qed

theorem rotation_pairs_once_witness:
  "distinct [0::nat, 1, 2]
   \<and> loop_a 0 1 [0, 1, 2] store3 [0, 1, 2] =
       rotate_pair 0 1 0 2 (rotate_pair 0 1 0 1 store3)
   \<and> distinct (matched_pairs store3 [0, 1, 2])
   \<and> (1, 0) \<notin> set (matched_pairs store3 [0, 1, 2])
   \<and> (2, 0) \<notin> set (matched_pairs store3 [0, 1, 2])
   \<and> (1, 2) \<notin> set (matched_pairs store3 [0, 1, 2])
   \<and> ydata (rotate_pair 0 1 0 1 store3 0) = [3, 4]
   \<and> ydata (rotate_pair 0 1 0 1 store3 1) = [-1, -2]
   \<and> ydata (loop_a 0 1 [0, 2] store3 [0, 2] 0) = [5, 6]
   \<and> ydata (loop_a 0 1 [0, 2] store3 [0, 2] 2) = [-1, -2]"
proof -
  have d: "distinct [0::nat, 1, 2]"
    by simp
  note t = rotation_pairs_once [OF d, of 0 1 store3]
  have "loop_a 0 1 [0, 1, 2] store3 [0, 1, 2] =
          foldl (\<lambda>h (a, b). rotate_pair 0 1 a b h) store3 (matched_pairs store3 [0, 1, 2])"
    using t by blast
  also have "\<dots> = rotate_pair 0 1 0 2 (rotate_pair 0 1 0 1 store3)"
    by (subst matched_pairs_store3) simp
  finally have l: "loop_a 0 1 [0, 1, 2] store3 [0, 1, 2] =
       rotate_pair 0 1 0 2 (rotate_pair 0 1 0 1 store3)" .
  have dm: "distinct (matched_pairs store3 [0, 1, 2])"
    using t by blast
  have m: "(0, 1) \<in> set (matched_pairs store3 [0, 1, 2])"
    by (subst matched_pairs_store3) simp
  have n: "(1, 0) \<notin> set (matched_pairs store3 [0, 1, 2])"
    "(2, 0) \<notin> set (matched_pairs store3 [0, 1, 2])"
    "(1, 2) \<notin> set (matched_pairs store3 [0, 1, 2])"
    using t m by blast+
  have "ydata (rotate_pair 0 1 0 1 store3 0) =
          map2 (\<lambda>x y. x * 0 + y * 1) (ydata (store3 0)) (ydata (store3 1))"
    using t m by blast
  also have "\<dots> = [3, 4]"
    by (simp add: ex_defs)
  finally have ra: "ydata (rotate_pair 0 1 0 1 store3 0) = [3, 4]" .
  have "ydata (rotate_pair 0 1 0 1 store3 1) =
          map2 (\<lambda>x y. - x * 1 + y * 0) (ydata (store3 0)) (ydata (store3 1))"
    using t m by blast
  also have "\<dots> = [-1, -2]"
    by (simp add: ex_defs)
  finally have rb: "ydata (rotate_pair 0 1 0 1 store3 1) = [-1, -2]" .
  have d2: "distinct [0::nat, 2]"
    by simp
  note u = rotation_pairs_once [OF d2, of 0 1 store3]
  have mp2: "matched_pairs store3 [0, 2] = [(0, 2)]"
    by (simp add: matched_pairs_def pairable_iff ex_defs)
  have m2: "(0, 2) \<in> set (matched_pairs store3 [0, 2])"
    by (simp add: mp2)
  have lone: "\<forall>p \<in> set (matched_pairs store3 [0, 2]).
                p = (0, 2) \<or> (fst p \<noteq> 0 \<and> fst p \<noteq> 2 \<and> snd p \<noteq> 0 \<and> snd p \<noteq> 2)"
    by (simp add: mp2)
  have "ydata (loop_a 0 1 [0, 2] store3 [0, 2] 0) =
          map2 (\<lambda>x y. x * 0 + y * 1) (ydata (store3 0)) (ydata (store3 2))"
    using u m2 lone by blast
  also have "\<dots> = [5, 6]"
    by (simp add: ex_defs)
  finally have la: "ydata (loop_a 0 1 [0, 2] store3 [0, 2] 0) = [5, 6]" .
  have "ydata (loop_a 0 1 [0, 2] store3 [0, 2] 2) =
          map2 (\<lambda>x y. - x * 1 + y * 0) (ydata (store3 0)) (ydata (store3 2))"
    using u m2 lone by blast
  also have "\<dots> = [-1, -2]"
    by (simp add: ex_defs)
  finally have lb: "ydata (loop_a 0 1 [0, 2] store3 [0, 2] 2) = [-1, -2]" .
  show ?thesis
    using d l dm n ra rb la lb by blast
qed

end
